theory Spec2Isabelle
  imports Main "HOL-Library.Sublist"
begin

section \<open>JavaScript values\<close>

text \<open>
  The values that flow through \<open>sitemapper.js\<close>: the tree returned by the XML
  deserializer, the transport's response object, error objects, URLs and site entries.
  Numbers are integers (timestamps, status codes, numeric element text); \<open>NaN\<close> is
  the \<open>None\<close> of \<open>date_getTime\<close> below. An object is an association list in
  insertion order.
\<close>

datatype jsval =
    Undefined
  | Null
  | Bool bool
  | Num int
  | Str string
  | Arr "jsval list"
  | Obj "(string \<times> jsval) list"

text \<open>JavaScript's ToBoolean, as used by \<open>if (x)\<close>, \<open>!x\<close>, \<open>x && y\<close>, \<open>x || y\<close>.\<close>

fun truthy :: "jsval \<Rightarrow> bool" where
  "truthy Undefined = False"
| "truthy Null = False"
| "truthy (Bool b) = b"
| "truthy (Num n) = (n \<noteq> 0)"
| "truthy (Str s) = (s \<noteq> [])"
| "truthy (Arr xs) = True"
| "truthy (Obj kvs) = True"

fun nullish :: "jsval \<Rightarrow> bool" where
  "nullish Undefined = True"
| "nullish Null = True"
| "nullish v = False"

text \<open>\<open>Array.isArray\<close>.\<close>

fun isArray :: "jsval \<Rightarrow> bool" where
  "isArray (Arr xs) = True"
| "isArray v = False"

text \<open>
  A thrown error object: its \<open>name\<close> and its \<open>message\<close>, the two properties the
  source inspects.
\<close>

datatype exn = Exn (exn_name: string) (exn_message: string)

definition TypeError :: exn where
  "TypeError = Exn ''TypeError'' ''Cannot read properties of undefined''"

text \<open>The error object seen as a value (\<open>data: error\<close> in \<open>parse\<close>).\<close>

definition exn_obj :: "exn \<Rightarrow> jsval" where
  "exn_obj e = Obj [(''name'', Str (exn_name e)), (''message'', Str (exn_message e))]"

text \<open>
  Property read \<open>v.k\<close> / \<open>v[k]\<close>. Reading a property of \<open>undefined\<close> or \<open>null\<close>
  throws a TypeError; an object yields its own property or \<open>undefined\<close>; the other
  values carry none of the property names the source reads (built-in members such as
  \<open>length\<close> are not among them).
\<close>

fun js_prop :: "jsval \<Rightarrow> string \<Rightarrow> exn + jsval" where
  "js_prop Undefined k = Inl TypeError"
| "js_prop Null k = Inl TypeError"
| "js_prop (Obj kvs) k = Inr (case map_of kvs k of Some v \<Rightarrow> v | None \<Rightarrow> Undefined)"
| "js_prop v k = Inr Undefined"

text \<open>
  The same read where the source has already established that the receiver is truthy
  (\<open>data && data.urlset && data.urlset.url\<close>), so that it cannot throw.
\<close>

definition truthy_prop :: "jsval \<Rightarrow> string \<Rightarrow> jsval" where
  "truthy_prop v k = (case js_prop v k of Inl e \<Rightarrow> Undefined | Inr x \<Rightarrow> x)"

text \<open>Property write \<open>o[k] = v\<close> on an object under construction: insertion order is kept.\<close>

fun obj_set :: "(string \<times> jsval) list \<Rightarrow> string \<Rightarrow> jsval \<Rightarrow> (string \<times> jsval) list" where
  "obj_set [] k v = [(k, v)]"
| "obj_set ((k', v') # kvs) k v = (if k' = k then (k, v) # kvs else (k', v') # obj_set kvs k v)"

subsection \<open>String conversion for template literals\<close>

fun show_nat :: "nat \<Rightarrow> string" where
  "show_nat n = (if n < 10 then [''0123456789'' ! n]
                 else show_nat (n div 10) @ [''0123456789'' ! (n mod 10)])"

declare show_nat.simps [simp del]

fun join_comma :: "string list \<Rightarrow> string" where
  "join_comma [] = []"
| "join_comma [s] = s"
| "join_comma (s # t # ss) = s @ '','' @ join_comma (t # ss)"

fun ToString :: "jsval \<Rightarrow> string" where
  "ToString Undefined = ''undefined''"
| "ToString Null = ''null''"
| "ToString (Bool b) = (if b then ''true'' else ''false'')"
| "ToString (Num n) = (if n < 0 then ''-'' @ show_nat (nat (- n)) else show_nat (nat n))"
| "ToString (Str s) = s"
| "ToString (Arr xs) = join_comma (map (\<lambda>x. if nullish x then [] else ToString x) xs)"
| "ToString (Obj kvs) = ''[object Object]''"

section \<open>Configuration, cancellation token, collaborators\<close>

text \<open>
  An \<open>AbortSignal\<close> is read through its \<open>aborted\<close> flag only. The flag is set from
  outside, so it is a function of time; time is counted in transport requests issued
  so far, the only points between which the crawl suspends.
\<close>

type_synonym signal = "nat \<Rightarrow> bool"

text \<open>
  The fields of \<open>this\<close> set by the constructor and never assigned afterwards.
  \<open>fieldSelection\<close> is \<open>this.fields\<close>: \<open>None\<close> for \<open>false\<close>, otherwise the entries of the object in
  insertion order. \<open>requestHeaders\<close>, \<open>rejectUnauthorized\<close> and \<open>proxyAgent\<close> are only
  handed to the transport; \<open>concurrency\<close> only bounds how many children are in flight.
\<close>

record config =
  url :: jsval
  timeout :: nat
  lastmod :: int
  debug :: bool
  retries :: nat
  fieldSelection :: "(string \<times> bool) list option"
  signal :: "signal option"

text \<open>
  What the run changes: the log of transport requests (\<open>got.get\<close> calls, oldest first)
  and the exclusion pattern objects of \<open>this.exclusions\<close>, whose \<open>test\<close> method may
  update the pattern (a RegExp with the \<open>g\<close> or \<open>y\<close> flag keeps \<open>lastIndex\<close>).
\<close>

record 'p state =
  requests :: "jsval list"
  exclusions :: "'p list"

datatype got_outcome = Fulfilled jsval | Rejected exn

text \<open>
  The collaborators that are not part of the repository, taken as parameters:
  \<^item> \<open>got_get u t\<close>: how the request for \<open>u\<close> issued as request number \<open>t\<close> settles
    (the response, or the error it rejects with: \<open>HTTPError\<close>, \<open>CancelError\<close> when the
    timer of \<open>initializeTimeout\<close> fires, \<open>AbortError\<close> when the signal fires, ...);
  \<^item> \<open>isGzip\<close>, \<open>gunzip\<close>: the gzip sniffer and \<open>zlib.gunzip\<close>;
  \<^item> \<open>xml_parse\<close>: \<open>XMLParser.parse\<close> on the body's text;
  \<^item> \<open>date_getTime v\<close>: \<open>new Date(v).getTime()\<close>, \<open>None\<close> for \<open>NaN\<close>;
  \<^item> \<open>regexp_test p v\<close>: \<open>p.test(v)\<close>, with the pattern as it is afterwards.
\<close>

record 'p env =
  got_get :: "jsval \<Rightarrow> nat \<Rightarrow> got_outcome"
  isGzip :: "jsval \<Rightarrow> bool"
  gunzip :: "jsval \<Rightarrow> exn + jsval"
  xml_parse :: "string \<Rightarrow> exn + jsval"
  date_getTime :: "jsval \<Rightarrow> int option"
  regexp_test :: "'p \<Rightarrow> jsval \<Rightarrow> bool \<times> 'p"

text \<open>How an asynchronous call settles.\<close>

datatype 'a completion = Threw exn | Resolved 'a

text \<open>\<open>signal && signal.aborted\<close> at time \<open>t\<close>.\<close>

definition aborted :: "signal option \<Rightarrow> nat \<Rightarrow> bool" where
  "aborted sg t = (case sg of None \<Rightarrow> False | Some s \<Rightarrow> s t)"

text \<open>\<open>e.name === 'AbortError' || e.message === 'Request was aborted'\<close>.\<close>

definition is_abort :: "exn \<Rightarrow> bool" where
  "is_abort e = (exn_name e = ''AbortError'' \<or> exn_message e = ''Request was aborted'')"

section \<open>parse\<close>

datatype parse_data = ParseData (pd_error: jsval) (pd_data: jsval)

text \<open>The body of the \<open>try\<close> block of \<open>parse\<close>, from \<open>got.get\<close> on.\<close>

definition parse_try :: "'p env \<Rightarrow> jsval \<Rightarrow> nat \<Rightarrow> exn + parse_data" where
  "parse_try env u t =
     (case got_get env u t of
        Rejected e \<Rightarrow> Inl e
      | Fulfilled response \<Rightarrow>
          if \<not> truthy response \<or> truthy_prop response ''statusCode'' \<noteq> Num 200 then
            (case js_prop response ''error'' of
               Inl e \<Rightarrow> Inl e
             | Inr err \<Rightarrow> Inr (ParseData err response))
          else
            (case (if isGzip env (truthy_prop response ''rawBody'')
                   then gunzip env (truthy_prop response ''body'')
                   else Inr (truthy_prop response ''body'')) of
               Inl e \<Rightarrow> Inl e
             | Inr responseBody \<Rightarrow>
                 if nullish responseBody then Inl TypeError
                 else (case xml_parse env (ToString responseBody) of
                         Inl e \<Rightarrow> Inl e
                       | Inr d \<Rightarrow> Inr (ParseData Null d))))"

text \<open>The \<open>catch\<close> block of \<open>parse\<close>.\<close>

definition parse_catch :: "config \<Rightarrow> jsval \<Rightarrow> exn \<Rightarrow> parse_data completion" where
  "parse_catch cfg u error =
     (if is_abort error then Threw error
      else if exn_name error = ''CancelError'' then
        Resolved (ParseData
          (Str (''Request timed out after '' @ show_nat (timeout cfg) @
                '' milliseconds for url: '' @ [CHR 0x27] @ ToString u @ [CHR 0x27]))
          (exn_obj error))
      else if exn_name error = ''HTTPError'' then
        Resolved (ParseData (Str (''HTTP Error occurred: '' @ exn_message error)) (exn_obj error))
      else
        Resolved (ParseData (Str (''Error occurred: '' @ exn_name error)) (exn_obj error)))"

text \<open>The default parameter \<open>url = this.url\<close> of \<open>parse\<close> and \<open>fetch\<close>.\<close>

definition request_url :: "config \<Rightarrow> jsval \<Rightarrow> jsval" where
  "request_url cfg url_arg = (if url_arg = Undefined then url cfg else url_arg)"

text \<open>
  \<open>parse(url = this.url, signal = null)\<close>. The request is logged when \<open>got.get\<close> is
  called. The timers of \<open>timeoutTable\<close> act only through the way the request settles,
  which is \<open>got_get\<close>'s.
\<close>

definition parse ::
  "config \<Rightarrow> 'p env \<Rightarrow> jsval \<Rightarrow> signal option \<Rightarrow> 'p state \<Rightarrow> parse_data completion \<times> 'p state" where
  "parse cfg env url_arg sg st =
     (let u = request_url cfg url_arg in
      if aborted sg (length (requests st)) then
        (Threw (Exn ''Error'' ''Request was aborted''), st)
      else
        (case parse_try env u (length (requests st)) of
           Inr r \<Rightarrow> Resolved r
         | Inl error \<Rightarrow> parse_catch cfg u error,
         st\<lparr>requests := requests st @ [u]\<rparr>))"

section \<open>isExcluded and the leaf projection\<close>

text \<open>
  \<open>this.exclusions.some((pattern) => pattern.test(url))\<close>: the patterns are tested in
  order up to the first that matches; every pattern tested is left as its \<open>test\<close>
  leaves it.
\<close>

fun some_test :: "('p \<Rightarrow> jsval \<Rightarrow> bool \<times> 'p) \<Rightarrow> 'p list \<Rightarrow> jsval \<Rightarrow> bool \<times> 'p list" where
  "some_test t [] v = (False, [])"
| "some_test t (p # ps) v =
     (case t p v of
        (True, p') \<Rightarrow> (True, p' # ps)
      | (False, p') \<Rightarrow> (case some_test t ps v of (b, ps') \<Rightarrow> (b, p' # ps')))"

definition isExcluded :: "'p env \<Rightarrow> 'p list \<Rightarrow> jsval \<Rightarrow> bool \<times> 'p list" where
  "isExcluded env pats v =
     (if length pats = 0 then (False, pats) else some_test (regexp_test env) pats v)"

text \<open>The callback of the first \<open>filter\<close>: the lastmod floor.\<close>

definition lastmod_ok :: "'p env \<Rightarrow> int \<Rightarrow> jsval \<Rightarrow> exn + bool" where
  "lastmod_ok env T site =
     (if T = 0 then Inr True
      else (case js_prop site ''lastmod'' of
              Inl e \<Rightarrow> Inl e
            | Inr lm \<Rightarrow>
                if lm = Undefined then Inr False
                else (case date_getTime env lm of
                        None \<Rightarrow> Inr False
                      | Some modified \<Rightarrow> Inr (T \<le> modified))))"

fun lastmod_filter :: "'p env \<Rightarrow> int \<Rightarrow> jsval list \<Rightarrow> exn + jsval list" where
  "lastmod_filter env T [] = Inr []"
| "lastmod_filter env T (site # rest) =
     (case lastmod_ok env T site of
        Inl e \<Rightarrow> Inl e
      | Inr keep \<Rightarrow>
          (case lastmod_filter env T rest of
             Inl e \<Rightarrow> Inl e
           | Inr kept \<Rightarrow> Inr (if keep then site # kept else kept)))"

text \<open>The second \<open>filter\<close>: \<open>!this.isExcluded(site.loc)\<close>.\<close>

fun exclusion_filter :: "'p env \<Rightarrow> 'p list \<Rightarrow> jsval list \<Rightarrow> (exn + jsval list) \<times> 'p list" where
  "exclusion_filter env pats [] = (Inr [], pats)"
| "exclusion_filter env pats (site # rest) =
     (case js_prop site ''loc'' of
        Inl e \<Rightarrow> (Inl e, pats)
      | Inr l \<Rightarrow>
          (case isExcluded env pats l of
             (excluded, pats1) \<Rightarrow>
               (case exclusion_filter env pats1 rest of
                  (Inl e, pats2) \<Rightarrow> (Inl e, pats2)
                | (Inr kept, pats2) \<Rightarrow> (Inr (if excluded then kept else site # kept), pats2))))"

text \<open>
  The loop over \<open>Object.entries(this.fields)\<close> that copies the active fields which are
  truthy on the element into the entry under construction.
\<close>

fun copy_fields ::
  "(string \<times> bool) list \<Rightarrow> jsval \<Rightarrow> (string \<times> jsval) list \<Rightarrow> exn + (string \<times> jsval) list" where
  "copy_fields [] site acc = Inr acc"
| "copy_fields ((field, active) # rest) site acc =
     (if active then
        (case js_prop site field of
           Inl e \<Rightarrow> Inl e
         | Inr v \<Rightarrow>
             if truthy v then copy_fields rest site (obj_set acc field v)
             else copy_fields rest site acc)
      else copy_fields rest site acc)"

text \<open>The callback of \<open>map\<close>: the site entry of one element of the sitemap at \<open>u\<close>.\<close>

definition site_entry :: "config \<Rightarrow> jsval \<Rightarrow> jsval \<Rightarrow> exn + jsval" where
  "site_entry cfg u site =
     (case fieldSelection cfg of
        None \<Rightarrow> js_prop site ''loc''
      | Some fs \<Rightarrow>
          (case copy_fields fs site
                  (if map_of fs ''sitemap'' = Some True then [(''sitemap'', u)] else []) of
             Inl e \<Rightarrow> Inl e
           | Inr kvs \<Rightarrow> Inr (Obj kvs)))"

fun map_entries :: "config \<Rightarrow> jsval \<Rightarrow> jsval list \<Rightarrow> exn + jsval list" where
  "map_entries cfg u [] = Inr []"
| "map_entries cfg u (site # rest) =
     (case site_entry cfg u site of
        Inl e \<Rightarrow> Inl e
      | Inr entry \<Rightarrow>
          (case map_entries cfg u rest of
             Inl e \<Rightarrow> Inl e
           | Inr entries \<Rightarrow> Inr (entry # entries)))"

text \<open>\<open>urlArray.filter(...).filter(...).map(...)\<close>.\<close>

definition leaf_projection ::
  "config \<Rightarrow> 'p env \<Rightarrow> jsval \<Rightarrow> jsval list \<Rightarrow> 'p list \<Rightarrow> (exn + jsval list) \<times> 'p list" where
  "leaf_projection cfg env u urlArray pats =
     (case lastmod_filter env (lastmod cfg) urlArray of
        Inl e \<Rightarrow> (Inl e, pats)
      | Inr recent \<Rightarrow>
          (case exclusion_filter env pats recent of
             (Inl e, pats1) \<Rightarrow> (Inl e, pats1)
           | (Inr kept, pats1) \<Rightarrow> (map_entries cfg u kept, pats1)))"

section \<open>Child sitemaps and the aggregation of their results\<close>

fun map_loc :: "jsval list \<Rightarrow> exn + jsval list" where
  "map_loc [] = Inr []"
| "map_loc (m # rest) =
     (case js_prop m ''loc'' of
        Inl e \<Rightarrow> Inl e
      | Inr l \<Rightarrow> (case map_loc rest of Inl e \<Rightarrow> Inl e | Inr ls \<Rightarrow> Inr (l # ls)))"

fun filter_excluded :: "'p env \<Rightarrow> 'p list \<Rightarrow> jsval list \<Rightarrow> jsval list \<times> 'p list" where
  "filter_excluded env pats [] = ([], pats)"
| "filter_excluded env pats (l # rest) =
     (case isExcluded env pats l of
        (excluded, pats1) \<Rightarrow>
          (case filter_excluded env pats1 rest of
             (kept, pats2) \<Rightarrow> (if excluded then kept else l # kept, pats2)))"

text \<open>
  \<open>data.sitemapindex.sitemap.map((map) => map.loc).filter((url) => !this.isExcluded(url))\<close>,
  given the (truthy) value of \<open>data.sitemapindex\<close>. Calling \<open>map\<close> on anything but an
  array throws a TypeError.
\<close>

definition child_urls :: "'p env \<Rightarrow> jsval \<Rightarrow> 'p list \<Rightarrow> (exn + jsval list) \<times> 'p list" where
  "child_urls env sitemapindex pats =
     (case truthy_prop sitemapindex ''sitemap'' of
        Arr maps \<Rightarrow>
          (case map_loc maps of
             Inl e \<Rightarrow> (Inl e, pats)
           | Inr locs \<Rightarrow> (case filter_excluded env pats locs of (kept, pats1) \<Rightarrow> (Inr kept, pats1)))
      | other \<Rightarrow> (Inl TypeError, pats))"

datatype error_data =
  ErrorData (er_type: jsval) (er_message: jsval) (er_url: jsval) (er_retries: nat)

record crawl_result =
  sites :: "jsval list"
  errors :: "error_data list"

text \<open>
  What the promise of \<open>crawl\<close> resolves to: a result object, or \<open>undefined\<close> when the
  \<open>catch\<close> block swallowed an error and the function ran off its end.
\<close>

datatype crawl_value = ReturnsUndefined | CrawlResult crawl_result

text \<open>
  The two \<open>filter(...).reduce(...)\<close> chains over the settled children. Reading
  \<open>result.errors\<close> of an \<open>undefined\<close> result throws.
\<close>

fun defined_results :: "crawl_value list \<Rightarrow> crawl_result list option" where
  "defined_results [] = Some []"
| "defined_results (ReturnsUndefined # rest) = None"
| "defined_results (CrawlResult r # rest) =
     (case defined_results rest of None \<Rightarrow> None | Some rs \<Rightarrow> Some (r # rs))"

definition merge_results :: "crawl_result list \<Rightarrow> crawl_result" where
  "merge_results rs =
     \<lparr>sites = concat (map sites (filter (\<lambda>r. length (errors r) = 0) rs)),
      errors = concat (map errors (filter (\<lambda>r. length (errors r) \<noteq> 0) rs))\<rparr>"

definition aggregate :: "crawl_value list \<Rightarrow> exn + crawl_result" where
  "aggregate results =
     (case defined_results results of
        None \<Rightarrow> Inl TypeError
      | Some rs \<Rightarrow> Inr (merge_results rs))"

text \<open>
  \<open>Promise.all\<close> over the children, run one after the other in dispatch order (the
  schedule of \<open>concurrency = 1\<close>; the results are in dispatch order under every
  schedule). The first child that rejects rejects the whole.
\<close>

fun promise_all ::
  "(jsval \<Rightarrow> 's \<Rightarrow> ('a completion \<times> 's) option) \<Rightarrow> jsval list \<Rightarrow> 's
     \<Rightarrow> ('a list completion \<times> 's) option" where
  "promise_all f [] st = Some (Resolved [], st)"
| "promise_all f (site # rest) st =
     (case f site st of
        None \<Rightarrow> None
      | Some (Threw e, st1) \<Rightarrow> Some (Threw e, st1)
      | Some (Resolved r, st1) \<Rightarrow>
          (case promise_all f rest st1 of
             None \<Rightarrow> None
           | Some (Threw e, st2) \<Rightarrow> Some (Threw e, st2)
           | Some (Resolved rs, st2) \<Rightarrow> Some (Resolved (r # rs), st2)))"

section \<open>crawl and fetch\<close>

text \<open>The \<open>catch\<close> block of \<open>crawl\<close>: abort errors are re-thrown, any other is dropped.\<close>

definition crawl_catch :: "exn \<Rightarrow> crawl_value completion" where
  "crawl_catch e = (if is_abort e then Threw e else Resolved ReturnsUndefined)"

text \<open>The debug message of a retry reads \<open>data.name\<close>.\<close>

definition log_retry :: "config \<Rightarrow> jsval \<Rightarrow> exn option" where
  "log_retry cfg dat =
     (if debug cfg then (case js_prop dat ''name'' of Inl e \<Rightarrow> Some e | Inr nm \<Rightarrow> None)
      else None)"

text \<open>
  The two shape tests of \<open>crawl\<close>: \<open>data && data.urlset && data.urlset.url\<close> and
  \<open>data && data.sitemapindex\<close>.
\<close>

definition is_urlset :: "jsval \<Rightarrow> bool" where
  "is_urlset dat =
     (truthy dat \<and> truthy (truthy_prop dat ''urlset'')
      \<and> truthy (truthy_prop (truthy_prop dat ''urlset'') ''url''))"

definition is_sitemapindex :: "jsval \<Rightarrow> bool" where
  "is_sitemapindex dat = (truthy dat \<and> truthy (truthy_prop dat ''sitemapindex''))"

text \<open>
  \<open>crawl(url, retryIndex, signal)\<close>. The recursion (a retry, or the children of an
  index) need not end: a sitemap index may list itself. The first argument bounds the
  depth of the recursion, and \<open>None\<close> says that the bound was reached.
\<close>

primrec crawl ::
  "nat \<Rightarrow> config \<Rightarrow> 'p env \<Rightarrow> jsval \<Rightarrow> nat \<Rightarrow> signal option \<Rightarrow> 'p state
     \<Rightarrow> (crawl_value completion \<times> 'p state) option" where
  "crawl 0 cfg env u retryIndex sg st = None"
| "crawl (Suc n) cfg env u retryIndex sg st =
     (case parse cfg env u sg st of
        (Threw e, st1) \<Rightarrow> Some (crawl_catch e, st1)
      | (Resolved (ParseData error dat), st1) \<Rightarrow>
          if truthy error then
            (if retryIndex < retries cfg then
               (case log_retry cfg dat of
                  Some e \<Rightarrow> Some (crawl_catch e, st1)
                | None \<Rightarrow> crawl n cfg env u (retryIndex + 1) sg st1)
             else
               (case js_prop dat ''name'' of
                  Inl e \<Rightarrow> Some (crawl_catch e, st1)
                | Inr nm \<Rightarrow>
                    Some (Resolved (CrawlResult
                            \<lparr>sites = [], errors = [ErrorData nm error u retryIndex]\<rparr>), st1)))
          else if is_urlset dat then
            (let urlset_url = truthy_prop (truthy_prop dat ''urlset'') ''url'';
                 urlArray = (case urlset_url of Arr xs \<Rightarrow> xs | other \<Rightarrow> [urlset_url])
             in case leaf_projection cfg env u urlArray (exclusions st1) of
                  (Inl e, pats) \<Rightarrow> Some (crawl_catch e, st1\<lparr>exclusions := pats\<rparr>)
                | (Inr entries, pats) \<Rightarrow>
                    Some (Resolved (CrawlResult \<lparr>sites = entries, errors = []\<rparr>),
                          st1\<lparr>exclusions := pats\<rparr>))
          else if is_sitemapindex dat then
            (case child_urls env (truthy_prop dat ''sitemapindex'') (exclusions st1) of
               (Inl e, pats) \<Rightarrow> Some (crawl_catch e, st1\<lparr>exclusions := pats\<rparr>)
             | (Inr sitemap, pats) \<Rightarrow>
                 (case promise_all (\<lambda>site s. crawl n cfg env site 0 sg s) sitemap
                         (st1\<lparr>exclusions := pats\<rparr>) of
                    None \<Rightarrow> None
                  | Some (Threw e, st2) \<Rightarrow> Some (crawl_catch e, st2)
                  | Some (Resolved results, st2) \<Rightarrow>
                      (case aggregate results of
                         Inl e \<Rightarrow> Some (crawl_catch e, st2)
                       | Inr r \<Rightarrow> Some (Resolved (CrawlResult r), st2))))
          else if retryIndex < retries cfg then
            (case log_retry cfg dat of
               Some e \<Rightarrow> Some (crawl_catch e, st1)
             | None \<Rightarrow> crawl n cfg env u (retryIndex + 1) sg st1)
          else
            (case js_prop dat ''name'' of
               Inl e \<Rightarrow> Some (crawl_catch e, st1)
             | Inr nm \<Rightarrow>
                 Some (Resolved (CrawlResult
                         \<lparr>sites = [],
                          errors = [ErrorData (if truthy nm then nm else Str ''UnknownStateError'')
                                      (Str ''An unknown error occurred.'') u retryIndex]\<rparr>), st1)))"

datatype sites_data = SitesData (sd_url: jsval) (sd_sites: "jsval list") (sd_errors: "error_data list")

text \<open>
  \<open>fetch(url = this.url, options = {})\<close>, with \<open>options.signal\<close> as \<open>opt_signal\<close>.
  The \<open>return\<close> statement reads \<open>results.sites\<close> outside the \<open>try\<close> block, which
  throws when \<open>crawl\<close> resolved to \<open>undefined\<close>.
\<close>

text \<open>\<open>options.signal || this.signal\<close>.\<close>

definition effective_signal :: "config \<Rightarrow> signal option \<Rightarrow> signal option" where
  "effective_signal cfg opt_signal = (case opt_signal of Some s \<Rightarrow> Some s | None \<Rightarrow> signal cfg)"

definition fetch ::
  "nat \<Rightarrow> config \<Rightarrow> 'p env \<Rightarrow> jsval \<Rightarrow> signal option \<Rightarrow> 'p state
     \<Rightarrow> (sites_data completion \<times> 'p state) option" where
  "fetch fuel cfg env url_arg opt_signal st =
     (let u = request_url cfg url_arg;
          sg = effective_signal cfg opt_signal
      in if aborted sg (length (requests st)) then
           Some (Threw (Exn ''Error'' ''Request was aborted''), st)
         else
           (case crawl fuel cfg env u 0 sg st of
              None \<Rightarrow> None
            | Some (Threw e, st1) \<Rightarrow>
                if is_abort e then Some (Threw e, st1)
                else Some (Resolved (SitesData u [] []), st1)
            | Some (Resolved ReturnsUndefined, st1) \<Rightarrow> Some (Threw TypeError, st1)
            | Some (Resolved (CrawlResult r), st1) \<Rightarrow>
                Some (Resolved (SitesData u (sites r) (errors r)), st1)))"

section \<open>Fixtures\<close>

text \<open>
  A pattern with literal source text, as a RegExp object: \<open>test\<close> searches the text
  of its argument from \<open>lastIndex\<close> when the pattern is global and from the start
  otherwise; a global pattern then stores where the match ended, or \<open>0\<close> when there
  was none.
\<close>

datatype regexp = RegExp (source: string) (global: bool) (lastIndex: nat)

fun index_of :: "string \<Rightarrow> string \<Rightarrow> nat option" where
  "index_of needle [] = (if needle = [] then Some 0 else None)"
| "index_of needle (c # cs) =
     (if take (length needle) (c # cs) = needle then Some 0
      else map_option Suc (index_of needle cs))"

definition literal_test :: "regexp \<Rightarrow> jsval \<Rightarrow> bool \<times> regexp" where
  "literal_test r v =
     (let s = ToString v; start = (if global r then lastIndex r else 0) in
      if length s < start then (False, if global r then RegExp (source r) True 0 else r)
      else (case index_of (source r) (drop start s) of
              None \<Rightarrow> (False, if global r then RegExp (source r) True 0 else r)
            | Some i \<Rightarrow>
                (True, if global r then RegExp (source r) True (start + i + length (source r))
                       else r)))"

definition page :: "string \<Rightarrow> jsval" where
  "page l = Obj [(''loc'', Str l)]"

text \<open>
  A small site, after the test "should handle errors in some child sitemaps while
  succeeding with others": \<open>root.xml\<close> is an index of \<open>good.xml\<close> (two pages) and
  \<open>bad.xml\<close> (whose request always fails); \<open>top.xml\<close> is an index of \<open>root.xml\<close>;
  \<open>one.xml\<close> is a urlset whose \<open>url\<close> is a single object; \<open>odd.xml\<close> is a
  \<open>sitemapindex\<close> element without \<open>sitemap\<close> children; \<open>dated.xml\<close> has entries
  with and without \<open>lastmod\<close>. The body of a response is the URL's own text.
\<close>

definition dated_urls :: "jsval list" where
  "dated_urls =
     [Obj [(''loc'', Str ''old''), (''lastmod'', Num 5)],
      Obj [(''loc'', Str ''new''), (''lastmod'', Num 20)],
      page ''undated'']"

definition mock_env :: "regexp env" where
  "mock_env =
     \<lparr>got_get = (\<lambda>u t.
         if u = Str ''bad.xml'' then Rejected (Exn ''HTTPError'' ''Response code 404'')
         else Fulfilled (Obj [(''statusCode'', Num 200), (''rawBody'', u), (''body'', u)])),
      isGzip = (\<lambda>b. False),
      gunzip = (\<lambda>b. Inr b),
      xml_parse = (\<lambda>s.
         if s = ''root.xml'' then
           Inr (Obj [(''sitemapindex'', Obj [(''sitemap'', Arr [page ''good.xml'', page ''bad.xml''])])])
         else if s = ''good.xml'' then
           Inr (Obj [(''urlset'', Obj [(''url'', Arr [page ''page1'', page ''page2''])])])
         else if s = ''top.xml'' then
           Inr (Obj [(''sitemapindex'', Obj [(''sitemap'', Arr [page ''root.xml''])])])
         else if s = ''one.xml'' then
           Inr (Obj [(''urlset'', Obj [(''url'', page ''page1'')])])
         else if s = ''odd.xml'' then
           Inr (Obj [(''sitemapindex'', Obj [(''foo'', Str ''bar'')])])
         else if s = ''dated.xml'' then
           Inr (Obj [(''urlset'', Obj [(''url'', Arr dated_urls)])])
         else Inr (Obj [])),
      date_getTime = (\<lambda>v. case v of Num n \<Rightarrow> Some n | other \<Rightarrow> None),
      regexp_test = literal_test\<rparr>"

definition mock_cfg :: config where
  "mock_cfg = \<lparr>url = Undefined, timeout = 15000, lastmod = 0, debug = False, retries = 0,
               fieldSelection = None, signal = None\<rparr>"

definition st0 :: "regexp state" where
  "st0 = \<lparr>requests = [], exclusions = []\<rparr>"

lemmas model_defs =
  fetch_def effective_signal_def request_url_def parse_def parse_try_def parse_catch_def
  aborted_def is_abort_def truthy_prop_def is_urlset_def is_sitemapindex_def child_urls_def
  leaf_projection_def isExcluded_def lastmod_ok_def site_entry_def aggregate_def
  merge_results_def crawl_catch_def log_retry_def exn_obj_def TypeError_def Let_def

lemmas fixture_defs = mock_env_def mock_cfg_def st0_def page_def dated_urls_def literal_test_def

section \<open>Basic facts\<close>

lemma js_prop_defined: "\<not> nullish v \<Longrightarrow> \<exists>x. js_prop v k = Inr x"
  by (cases v) simp_all

lemma js_prop_Inr_not_nullish: "js_prop v k = Inr x \<Longrightarrow> \<not> nullish v"
  by (cases v) simp_all

lemma js_prop_Inl: "js_prop v k = Inl e \<Longrightarrow> e = TypeError \<and> nullish v"
  by (cases v) simp_all

lemma truthy_not_nullish: "truthy v \<Longrightarrow> \<not> nullish v"
  by (cases v) simp_all

lemma TypeError_not_abort: "\<not> is_abort TypeError"
  by (simp add: is_abort_def TypeError_def)

lemma crawl_catch_TypeError: "crawl_catch TypeError = Resolved ReturnsUndefined"
  by (simp add: crawl_catch_def TypeError_not_abort)

subsection \<open>parse\<close>

lemma parse_aborted:
  "aborted sg (length (requests st)) \<Longrightarrow>
   parse cfg env u sg st = (Threw (Exn ''Error'' ''Request was aborted''), st)"
  by (simp add: parse_def)

lemma parse_Threw_is_abort: "parse cfg env u sg st = (Threw e, st') \<Longrightarrow> is_abort e"
  by (auto simp: parse_def Let_def parse_catch_def is_abort_def split: if_splits sum.splits)

lemma parse_try_error_data:
  "parse_try env u t = Inr (ParseData err dat) \<Longrightarrow> truthy err \<Longrightarrow> \<not> nullish dat"
  by (auto simp: parse_try_def split: got_outcome.splits if_splits sum.splits
           dest: js_prop_Inr_not_nullish)

lemma parse_catch_error_data:
  "parse_catch cfg u e = Resolved (ParseData err dat) \<Longrightarrow> \<not> nullish dat"
  by (auto simp: parse_catch_def exn_obj_def split: if_splits)

lemma parse_error_data:
  "parse cfg env u sg st = (Resolved (ParseData err dat), st') \<Longrightarrow> truthy err \<Longrightarrow> \<not> nullish dat"
  by (auto simp: parse_def Let_def split: if_splits sum.splits
           dest: parse_try_error_data parse_catch_error_data)

lemma parse_Resolved_state:
  "parse cfg env u sg st = (Resolved r, st') \<Longrightarrow>
   st' = st\<lparr>requests := requests st @ [request_url cfg u]\<rparr>"
  by (auto simp: parse_def Let_def split: if_splits)

section \<open>An already triggered token\<close>

text \<open>
  C2. When the effective token (the per-call signal, or else the constructor's) is
  already triggered as \<open>fetch\<close> is called, \<open>fetch\<close> rejects with the abort error and
  the state is the one it was called in: the request log has not grown, no transport
  call was issued. This holds for every configuration, URL, collaborator and recursion
  bound.
\<close>

theorem fetch_already_aborted:
  assumes "aborted (effective_signal cfg opt_signal) (length (requests st))"
  shows "fetch fuel cfg env u opt_signal st =
           Some (Threw (Exn ''Error'' ''Request was aborted''), st)
         \<and> is_abort (Exn ''Error'' ''Request was aborted'')"
  using assms by (simp add: fetch_def Let_def is_abort_def)

text \<open>The per-call signal is triggered, the constructor's is not.\<close>

theorem fetch_already_aborted_witness:
  "fetch 3 (mock_cfg\<lparr>signal := Some (\<lambda>t. False)\<rparr>) mock_env (Str ''root.xml'')
      (Some (\<lambda>t. True)) st0
   = Some (Threw (Exn ''Error'' ''Request was aborted''), st0)"
proof -
  have h: "aborted (effective_signal (mock_cfg\<lparr>signal := Some (\<lambda>t. False)\<rparr>) (Some (\<lambda>t. True)))
             (length (requests st0))"
    by (simp add: aborted_def effective_signal_def)
  show ?thesis
    by (rule conjunct1[OF fetch_already_aborted[OF h]])
qed

section \<open>The retry bound\<close>

lemma crawl_retry_loop:
  assumes fails: "\<And>s. n \<le> length (requests s) \<Longrightarrow> length (requests s) \<le> n + retries cfg \<Longrightarrow>
              \<exists>err dat. fst (parse cfg env u sg s) = Resolved (ParseData err dat) \<and> truthy err"
  shows "d = retries cfg - ri \<Longrightarrow> ri \<le> retries cfg \<Longrightarrow> length (requests st) = n + ri \<Longrightarrow>
         d < fuel \<Longrightarrow>
         \<exists>nm msg. crawl fuel cfg env u ri sg st =
            Some (Resolved (CrawlResult \<lparr>sites = [], errors = [ErrorData nm msg u (retries cfg)]\<rparr>),
                  st\<lparr>requests := requests st @ replicate (Suc d) (request_url cfg u)\<rparr>)"
proof (induction d arbitrary: ri st fuel)
  case 0
  then obtain m where fuel: "fuel = Suc m" by (cases fuel) auto
  from 0 have ri: "ri = retries cfg" by simp
  from fails[of st] 0 obtain err dat where
    p: "fst (parse cfg env u sg st) = Resolved (ParseData err dat)" and t: "truthy err"
    by auto
  obtain st1 where p1: "parse cfg env u sg st = (Resolved (ParseData err dat), st1)"
    using p by (cases "parse cfg env u sg st") auto
  have st1: "st1 = st\<lparr>requests := requests st @ [request_url cfg u]\<rparr>"
    using parse_Resolved_state[OF p1] .
  from parse_error_data[OF p1 t] obtain nm where nm: "js_prop dat ''name'' = Inr nm"
    using js_prop_defined by blast
  show ?case
    by (simp add: fuel p1 t ri nm st1)
next
  case (Suc d)
  then obtain m where fuel: "fuel = Suc m" and m: "d < m" by (cases fuel) auto
  from Suc.prems have ri: "ri < retries cfg" by simp
  from fails[of st] Suc.prems obtain err dat where
    p: "fst (parse cfg env u sg st) = Resolved (ParseData err dat)" and t: "truthy err"
    by auto
  obtain st1 where p1: "parse cfg env u sg st = (Resolved (ParseData err dat), st1)"
    using p by (cases "parse cfg env u sg st") auto
  have st1: "st1 = st\<lparr>requests := requests st @ [request_url cfg u]\<rparr>"
    using parse_Resolved_state[OF p1] .
  from parse_error_data[OF p1 t] obtain nm where nm: "js_prop dat ''name'' = Inr nm"
    using js_prop_defined by blast
  have lg: "log_retry cfg dat = None" by (simp add: log_retry_def nm)
  have "\<exists>nm msg. crawl m cfg env u (Suc ri) sg st1 =
            Some (Resolved (CrawlResult \<lparr>sites = [], errors = [ErrorData nm msg u (retries cfg)]\<rparr>),
                  st1\<lparr>requests := requests st1 @ replicate (Suc d) (request_url cfg u)\<rparr>)"
    using Suc.prems ri m by (intro Suc.IH) (auto simp: st1)
  then show ?case
    by (simp add: fuel p1 t ri lg st1 replicate_app_Cons_same)
qed

text \<open>
  C4. Take a node whose \<open>parse\<close> fails (resolves with a truthy \<open>error\<close>) on every
  attempt made while the request log holds between \<open>n\<close> and \<open>n + R\<close> entries, where
  \<open>n\<close> is its length when \<open>crawl\<close> is called and \<open>R\<close> is \<open>retries\<close>. Then, given
  a recursion bound above \<open>R\<close>, \<open>crawl\<close> resolves with no sites and exactly one error
  record, whose \<open>retries\<close> field is \<open>R\<close>, and the request log has grown by exactly
  \<open>R + 1\<close> requests, all for that node's URL.
\<close>

theorem crawl_retry_bound:
  assumes "\<And>s. length (requests st) \<le> length (requests s) \<Longrightarrow>
                length (requests s) \<le> length (requests st) + retries cfg \<Longrightarrow>
              \<exists>err dat. fst (parse cfg env u sg s) = Resolved (ParseData err dat) \<and> truthy err"
    and "retries cfg < fuel"
  shows "\<exists>nm msg. crawl fuel cfg env u 0 sg st =
            Some (Resolved (CrawlResult \<lparr>sites = [], errors = [ErrorData nm msg u (retries cfg)]\<rparr>),
                  st\<lparr>requests := requests st @ replicate (retries cfg + 1) (request_url cfg u)\<rparr>)"
  using crawl_retry_loop[where n = "length (requests st)" and ri = 0 and st = st and fuel = fuel
          and cfg = cfg and env = env and u = u and sg = sg and d = "retries cfg"] assms
  by simp

text \<open>Two retries of \<open>bad.xml\<close>: three requests, one record with \<open>retries = 2\<close>.\<close>

theorem crawl_retry_bound_witness:
  "\<exists>nm msg. crawl 3 (mock_cfg\<lparr>retries := 2\<rparr>) mock_env (Str ''bad.xml'') 0 None st0 =
      Some (Resolved (CrawlResult \<lparr>sites = [], errors = [ErrorData nm msg (Str ''bad.xml'') 2]\<rparr>),
            \<lparr>requests = [Str ''bad.xml'', Str ''bad.xml'', Str ''bad.xml''], exclusions = []\<rparr>)"
proof -
  have h: "\<exists>err dat. fst (parse (mock_cfg\<lparr>retries := 2\<rparr>) mock_env (Str ''bad.xml'') None s)
                       = Resolved (ParseData err dat) \<and> truthy err" for s :: "regexp state"
    by (simp add: model_defs fixture_defs)
  have f: "retries (mock_cfg\<lparr>retries := 2\<rparr>) < 3"
    by (simp add: mock_cfg_def)
  from crawl_retry_bound[where st = st0, OF h f] show ?thesis
    by (simp add: request_url_def st0_def mock_cfg_def numeral_3_eq_3)
qed

section \<open>A plain urlset\<close>

lemma request_url_idem: "request_url cfg (request_url cfg u) = request_url cfg u"
  by (simp add: request_url_def)

lemma parse_request_url: "parse cfg env (request_url cfg u) sg st = parse cfg env u sg st"
  by (simp add: parse_def request_url_idem)

lemma parse_Resolved_not_aborted:
  "fst (parse cfg env u sg st) = Resolved r \<Longrightarrow> \<not> aborted sg (length (requests st))"
  by (auto simp: parse_def Let_def split: if_splits)

lemma lastmod_filter_off: "lastmod_filter env 0 xs = Inr xs"
  by (induction xs) (simp_all add: lastmod_ok_def)

lemma exclusion_filter_no_patterns:
  "\<forall>e\<in>set xs. \<not> nullish e \<Longrightarrow> exclusion_filter env [] xs = (Inr xs, [])"
proof (induction xs)
  case Nil
  then show ?case by simp
next
  case (Cons x xs)
  then obtain l where "js_prop x ''loc'' = Inr l"
    using js_prop_defined[of x "''loc''"] by auto
  with Cons show ?case by (simp add: isExcluded_def)
qed

lemma truthy_prop_eq: "js_prop v k = Inr x \<Longrightarrow> truthy_prop v k = x"
  by (simp add: truthy_prop_def)

lemma js_prop_truthy_prop: "\<not> nullish v \<Longrightarrow> js_prop v k = Inr (truthy_prop v k)"
  using js_prop_defined[of v k] by (auto simp: truthy_prop_def)

lemma map_entries_bare:
  "fieldSelection cfg = None \<Longrightarrow> \<forall>e\<in>set xs. \<not> nullish e \<Longrightarrow>
   map_entries cfg u xs = Inr (map (\<lambda>e. truthy_prop e ''loc'') xs)"
  by (induction xs) (simp_all add: site_entry_def js_prop_truthy_prop)

lemma leaf_projection_no_filters:
  assumes "lastmod cfg = 0" "fieldSelection cfg = None" "\<forall>e\<in>set xs. \<not> nullish e"
  shows "leaf_projection cfg env u xs [] = (Inr (map (\<lambda>e. truthy_prop e ''loc'') xs), [])"
  using assms
  by (simp add: leaf_projection_def lastmod_filter_off exclusion_filter_no_patterns map_entries_bare)

lemma Arr_is_urlset:
  "truthy_prop (truthy_prop dat ''urlset'') ''url'' = Arr elems \<Longrightarrow> is_urlset dat"
  by (cases dat; cases "truthy_prop dat ''urlset''") (auto simp: is_urlset_def truthy_prop_def)

text \<open>
  C5. When the root document parses without error to a tree whose \<open>urlset.url\<close> is
  an array of \<open>N\<close> url elements, the lastmod floor is \<open>0\<close>, there is no exclusion
  pattern and no field selection, \<open>fetch\<close> resolves with the \<open>loc\<close> of each element,
  in the array's order (so \<open>N\<close> sites), with an empty error list, after one request.
\<close>

theorem fetch_plain_urlset:
  assumes p: "fst (parse cfg env u (effective_signal cfg opt_signal) st) = Resolved (ParseData err dat)"
    and e: "\<not> truthy err"
    and d: "truthy_prop (truthy_prop dat ''urlset'') ''url'' = Arr elems"
    and n: "\<forall>e\<in>set elems. \<not> nullish e"
    and c: "lastmod cfg = 0" "exclusions st = []" "fieldSelection cfg = None"
  shows "fetch (Suc fuel) cfg env u opt_signal st =
           Some (Resolved (SitesData (request_url cfg u) (map (\<lambda>e. truthy_prop e ''loc'') elems) []),
                 st\<lparr>requests := requests st @ [request_url cfg u]\<rparr>)"
proof -
  let ?sg = "effective_signal cfg opt_signal"
  obtain st1 where p1: "parse cfg env u ?sg st = (Resolved (ParseData err dat), st1)"
    using p by (cases "parse cfg env u ?sg st") auto
  have st1: "st1 = st\<lparr>requests := requests st @ [request_url cfg u]\<rparr>"
    using parse_Resolved_state[OF p1] .
  have na: "\<not> aborted ?sg (length (requests st))"
    using parse_Resolved_not_aborted[OF p] .
  have u: "is_urlset dat" using Arr_is_urlset[OF d] .
  have ex: "exclusions st1 = []" using c by (simp add: st1)
  have lp: "leaf_projection cfg env (request_url cfg u) elems [] =
              (Inr (map (\<lambda>e. truthy_prop e ''loc'') elems), [])"
    using leaf_projection_no_filters[OF c(1) c(3) n] .
  have "crawl (Suc fuel) cfg env (request_url cfg u) 0 ?sg st =
          Some (Resolved (CrawlResult \<lparr>sites = map (\<lambda>e. truthy_prop e ''loc'') elems, errors = []\<rparr>), st1)"
    using ex by (simp add: parse_request_url p1 e u d lp Let_def)
  then show ?thesis
    using na by (simp add: fetch_def Let_def st1)
qed

theorem fetch_plain_urlset_witness:
  "fetch (Suc 0) mock_cfg mock_env (Str ''good.xml'') None st0 =
     Some (Resolved (SitesData (Str ''good.xml'') [Str ''page1'', Str ''page2''] []),
           \<lparr>requests = [Str ''good.xml''], exclusions = []\<rparr>)"
proof -
  have p: "fst (parse mock_cfg mock_env (Str ''good.xml'') (effective_signal mock_cfg None) st0) =
             Resolved (ParseData Null
               (Obj [(''urlset'', Obj [(''url'', Arr [page ''page1'', page ''page2''])])]))"
    by (simp add: model_defs mock_env_def mock_cfg_def st0_def)
  have d: "truthy_prop (truthy_prop
             (Obj [(''urlset'', Obj [(''url'', Arr [page ''page1'', page ''page2''])])]) ''urlset'') ''url''
           = Arr [page ''page1'', page ''page2'']"
    by (simp add: truthy_prop_def)
  have n: "\<forall>e\<in>set [page ''page1'', page ''page2'']. \<not> nullish e"
    by (simp add: page_def)
  from fetch_plain_urlset[OF p _ d n, of 0] show ?thesis
    by (simp add: mock_cfg_def st0_def request_url_def page_def truthy_prop_def)
qed

section \<open>The lastmod floor\<close>

lemma lastmod_filter_subseq:
  "lastmod_filter env T xs = Inr ys \<Longrightarrow> subseq ys xs"
proof (induction xs arbitrary: ys)
  case Nil
  then show ?case by simp
next
  case (Cons x xs)
  then show ?case
    by (auto split: sum.splits if_splits)
qed

lemma lastmod_ok_True:
  "lastmod_ok env T site = Inr True \<Longrightarrow> T \<noteq> 0 \<Longrightarrow>
   \<exists>lm m. js_prop site ''lastmod'' = Inr lm \<and> lm \<noteq> Undefined
          \<and> date_getTime env lm = Some m \<and> T \<le> m"
  by (auto simp: lastmod_ok_def split: sum.splits if_splits option.splits)

lemma lastmod_filter_recent:
  "lastmod_filter env T xs = Inr ys \<Longrightarrow> T \<noteq> 0 \<Longrightarrow> e \<in> set ys \<Longrightarrow>
   \<exists>lm m. js_prop e ''lastmod'' = Inr lm \<and> lm \<noteq> Undefined
          \<and> date_getTime env lm = Some m \<and> T \<le> m"
proof (induction xs arbitrary: ys)
  case Nil
  then show ?case by simp
next
  case (Cons x xs)
  from Cons.prems(1) obtain keep kept where
    k: "lastmod_ok env T x = Inr keep" and r: "lastmod_filter env T xs = Inr kept"
    and ys: "ys = (if keep then x # kept else kept)"
    by (auto split: sum.splits)
  show ?case
  proof (cases "keep \<and> e = x")
    case True
    with k have "lastmod_ok env T e = Inr True" by simp
    from lastmod_ok_True[OF this Cons.prems(2)] show ?thesis .
  next
    case False
    with ys Cons.prems(3) have "e \<in> set kept" by (auto split: if_splits)
    from Cons.IH[OF r Cons.prems(2) this] show ?thesis .
  qed
qed

lemma exclusion_filter_subseq:
  "exclusion_filter env pats xs = (Inr ys, pats') \<Longrightarrow> subseq ys xs"
proof (induction xs arbitrary: ys pats pats')
  case Nil
  then show ?case by simp
next
  case (Cons x xs)
  then show ?case
    by (auto split: sum.splits prod.splits if_splits)
qed

lemma map_entries_all2:
  "map_entries cfg u xs = Inr ys \<Longrightarrow> list_all2 (\<lambda>e entry. site_entry cfg u e = Inr entry) xs ys"
proof (induction xs arbitrary: ys)
  case Nil
  then show ?case by simp
next
  case (Cons x xs)
  then show ?case by (auto split: sum.splits)
qed

text \<open>
  C7. Whenever the leaf projection of \<open>elems\<close> yields entries, they are, one for one
  and in order, the site entries of the elements \<open>kept\<close>, which are the elements left
  by the exclusion filter among those (\<open>recent\<close>) left by the lastmod filter. With a
  nonzero floor \<open>T\<close> every kept element has a \<open>lastmod\<close> that is not \<open>undefined\<close>
  and whose timestamp is a number at least \<open>T\<close>; with the floor \<open>0\<close> the lastmod
  filter drops nothing (\<open>recent = elems\<close>), whatever the elements carry.
\<close>

theorem leaf_projection_lastmod:
  assumes "leaf_projection cfg env u elems pats = (Inr entries, pats')"
  shows "\<exists>recent kept.
           lastmod_filter env (lastmod cfg) elems = Inr recent \<and> subseq recent elems
         \<and> exclusion_filter env pats recent = (Inr kept, pats') \<and> subseq kept recent
         \<and> list_all2 (\<lambda>e entry. site_entry cfg u e = Inr entry) kept entries
         \<and> (lastmod cfg \<noteq> 0 \<longrightarrow>
              (\<forall>e\<in>set kept. \<exists>lm m. js_prop e ''lastmod'' = Inr lm \<and> lm \<noteq> Undefined
                                   \<and> date_getTime env lm = Some m \<and> lastmod cfg \<le> m))
         \<and> (lastmod cfg = 0 \<longrightarrow> recent = elems)"
proof -
  from assms obtain recent kept where
    r: "lastmod_filter env (lastmod cfg) elems = Inr recent"
    and k: "exclusion_filter env pats recent = (Inr kept, pats')"
    and m: "map_entries cfg u kept = Inr entries"
    by (auto simp: leaf_projection_def split: sum.splits prod.splits)
  have sk: "subseq kept recent" using exclusion_filter_subseq[OF k] .
  have "\<exists>lm m. js_prop e ''lastmod'' = Inr lm \<and> lm \<noteq> Undefined
                \<and> date_getTime env lm = Some m \<and> lastmod cfg \<le> m"
    if "lastmod cfg \<noteq> 0" "e \<in> set kept" for e
  proof -
    have "e \<in> set recent" using sk that(2) by (auto elim: list_emb_set)
    from lastmod_filter_recent[OF r that(1) this] show ?thesis .
  qed
  moreover have "lastmod cfg = 0 \<Longrightarrow> recent = elems"
    using r by (simp add: lastmod_filter_off)
  ultimately show ?thesis
    using r k sk lastmod_filter_subseq[OF r] map_entries_all2[OF m] by blast
qed

theorem leaf_projection_lastmod_witness:
  "\<exists>recent kept.
     lastmod_filter mock_env (lastmod (mock_cfg\<lparr>lastmod := 10\<rparr>)) dated_urls = Inr recent
     \<and> subseq recent dated_urls
     \<and> exclusion_filter mock_env [] recent = (Inr kept, [])
     \<and> subseq kept recent
     \<and> list_all2 (\<lambda>e entry. site_entry (mock_cfg\<lparr>lastmod := 10\<rparr>) (Str ''dated.xml'') e = Inr entry)
          kept [Str ''new'']
     \<and> (lastmod (mock_cfg\<lparr>lastmod := 10\<rparr>) \<noteq> 0 \<longrightarrow>
          (\<forall>e\<in>set kept. \<exists>lm m. js_prop e ''lastmod'' = Inr lm \<and> lm \<noteq> Undefined
                \<and> date_getTime mock_env lm = Some m \<and> lastmod (mock_cfg\<lparr>lastmod := 10\<rparr>) \<le> m))
     \<and> (lastmod (mock_cfg\<lparr>lastmod := 10\<rparr>) = 0 \<longrightarrow> recent = dated_urls)"
proof -
  have h: "leaf_projection (mock_cfg\<lparr>lastmod := 10\<rparr>) mock_env (Str ''dated.xml'') dated_urls []
             = (Inr [Str ''new''], [])"
    by (simp add: model_defs fixture_defs)
  from leaf_projection_lastmod[OF h] show ?thesis .
qed

section \<open>The field mapping\<close>

lemma map_of_obj_set: "map_of (obj_set kvs k v) = (map_of kvs)(k \<mapsto> v)"
  by (induction kvs) (auto simp: fun_eq_iff)

lemma copy_fields_map_of:
  "\<not> nullish site \<Longrightarrow>
   \<exists>kvs. copy_fields fs site acc = Inr kvs \<and>
     (\<forall>k. map_of kvs k =
        (if (k, True) \<in> set fs \<and> truthy (truthy_prop site k) then Some (truthy_prop site k)
         else map_of acc k))"
proof (induction fs arbitrary: acc)
  case Nil
  then show ?case by simp
next
  case (Cons f fs)
  obtain field active where f: "f = (field, active)" by (cases f)
  show ?case
  proof (cases "active \<and> truthy (truthy_prop site field)")
    case True
    from Cons.IH[OF Cons.prems, of "obj_set acc field (truthy_prop site field)"]
    obtain kvs where kvs: "copy_fields fs site (obj_set acc field (truthy_prop site field)) = Inr kvs"
      and m: "\<forall>k. map_of kvs k =
        (if (k, True) \<in> set fs \<and> truthy (truthy_prop site k) then Some (truthy_prop site k)
         else map_of (obj_set acc field (truthy_prop site field)) k)"
      by blast
    have "copy_fields (f # fs) site acc = Inr kvs"
      using True kvs Cons.prems by (simp add: f js_prop_truthy_prop)
    moreover have "\<forall>k. map_of kvs k =
        (if (k, True) \<in> set (f # fs) \<and> truthy (truthy_prop site k) then Some (truthy_prop site k)
         else map_of acc k)"
      using m True by (auto simp: f map_of_obj_set)
    ultimately show ?thesis by blast
  next
    case False
    from Cons.IH[OF Cons.prems, of acc]
    obtain kvs where kvs: "copy_fields fs site acc = Inr kvs"
      and m: "\<forall>k. map_of kvs k =
        (if (k, True) \<in> set fs \<and> truthy (truthy_prop site k) then Some (truthy_prop site k)
         else map_of acc k)"
      by blast
    have "copy_fields (f # fs) site acc = Inr kvs"
      using False kvs Cons.prems by (auto simp: f js_prop_truthy_prop)
    moreover have "\<forall>k. map_of kvs k =
        (if (k, True) \<in> set (f # fs) \<and> truthy (truthy_prop site k) then Some (truthy_prop site k)
         else map_of acc k)"
      using m False by (auto simp: f)
    ultimately show ?thesis by blast
  qed
qed





section \<open>Repeating the leaf projection\<close>

lemma some_test_stateless:
  "\<forall>p\<in>set ps. \<forall>v. snd (t p v) = p \<Longrightarrow> snd (some_test t ps v) = ps"
proof (induction ps)
  case Nil
  then show ?case by simp
next
  case (Cons p ps)
  then have "snd (t p v) = p" "snd (some_test t ps v) = ps" by auto
  then show ?case
    by (cases "t p v"; cases "some_test t ps v") (auto split: bool.splits)
qed

lemma isExcluded_stateless:
  "\<forall>p\<in>set ps. \<forall>v. snd (regexp_test env p v) = p \<Longrightarrow> snd (isExcluded env ps v) = ps"
  by (simp add: isExcluded_def some_test_stateless)

lemma exclusion_filter_stateless:
  "\<forall>p\<in>set ps. \<forall>v. snd (regexp_test env p v) = p \<Longrightarrow> snd (exclusion_filter env ps xs) = ps"
proof (induction xs)
  case Nil
  then show ?case by simp
next
  case (Cons x xs)
  show ?case
  proof (cases "js_prop x ''loc''")
    case (Inl e)
    then show ?thesis by simp
  next
    case (Inr l)
    have 1: "snd (isExcluded env ps l) = ps" using isExcluded_stateless[OF Cons.prems] .
    have 2: "snd (exclusion_filter env ps xs) = ps" using Cons by simp
    show ?thesis using Inr 1 2
      by (cases "isExcluded env ps l"; cases "exclusion_filter env ps xs")
         (auto split: sum.splits)
  qed
qed

lemma leaf_projection_stateless:
  "\<forall>p\<in>set ps. \<forall>v. snd (regexp_test env p v) = p \<Longrightarrow> snd (leaf_projection cfg env u xs ps) = ps"
  using exclusion_filter_stateless[of ps env]
  by (auto simp: leaf_projection_def split: sum.splits prod.splits) (metis snd_conv)+

lemma lastmod_ok_cong:
  "date_getTime env' = date_getTime env \<Longrightarrow> lastmod_ok env' T site = lastmod_ok env T site"
  by (auto simp: lastmod_ok_def split: sum.splits option.splits)

lemma lastmod_filter_cong:
  assumes d: "date_getTime env' = date_getTime env"
  shows "lastmod_filter env' T xs = lastmod_filter env T xs"
proof (induction xs)
  case Nil
  show ?case by simp
next
  case (Cons x xs)
  have "lastmod_ok env' T x = lastmod_ok env T x" by (rule lastmod_ok_cong[OF d])
  with Cons.IH show ?case by (simp cong: sum.case_cong)
qed

lemma isExcluded_cong:
  "regexp_test env' = regexp_test env \<Longrightarrow> isExcluded env' ps v = isExcluded env ps v"
  by (simp add: isExcluded_def)

lemma exclusion_filter_cong:
  assumes r: "regexp_test env' = regexp_test env"
  shows "exclusion_filter env' ps xs = exclusion_filter env ps xs"
proof (induction xs arbitrary: ps)
  case Nil
  show ?case by simp
next
  case (Cons x xs)
  have "isExcluded env' ps l = isExcluded env ps l" for l by (rule isExcluded_cong[OF r])
  with Cons.IH show ?case by (simp cong: sum.case_cong prod.case_cong)
qed

lemma site_entry_cong:
  "fieldSelection cfg' = fieldSelection cfg \<Longrightarrow> site_entry cfg' u site = site_entry cfg u site"
  by (simp add: site_entry_def)

lemma map_entries_cong:
  assumes f: "fieldSelection cfg' = fieldSelection cfg"
  shows "map_entries cfg' u xs = map_entries cfg u xs"
proof (induction xs)
  case Nil
  show ?case by simp
next
  case (Cons x xs)
  have "site_entry cfg' u x = site_entry cfg u x" by (rule site_entry_cong[OF f])
  with Cons.IH show ?case by (simp cong: sum.case_cong)
qed

lemma leaf_projection_cong:
  assumes "lastmod cfg' = lastmod cfg" "fieldSelection cfg' = fieldSelection cfg"
    and "date_getTime env' = date_getTime env" "regexp_test env' = regexp_test env"
  shows "leaf_projection cfg' env' u xs ps = leaf_projection cfg env u xs ps"
proof -
  have 1: "lastmod_filter env' (lastmod cfg') xs = lastmod_filter env (lastmod cfg) xs"
    using lastmod_filter_cong[OF assms(3)] assms(1) by simp
  have 2: "exclusion_filter env' qs ys = exclusion_filter env qs ys" for qs ys
    by (rule exclusion_filter_cong[OF assms(4)])
  have 3: "map_entries cfg' u ys = map_entries cfg u ys" for ys
    by (rule map_entries_cong[OF assms(2)])
  show ?thesis
    by (simp add: leaf_projection_def 1 2 3 cong: sum.case_cong prod.case_cong)
qed

text \<open>
  X7. When no exclusion pattern is changed by its own \<open>test\<close> (a RegExp
  without the \<open>g\<close> and \<open>y\<close> flags), running the leaf projection a second time on
  the same elements of the same sitemap, with the patterns as the first run left
  them, yields what the first run yielded: the same entries (or the same error) and
  the same patterns. The second run may be under any configuration and collaborators
  that agree with the first on the lastmod floor, the field selection, the date parser
  and the patterns' \<open>test\<close>; nothing else of the run (the request log, the retry
  limit, the transport) enters the projection.
\<close>

theorem leaf_projection_twice:
  assumes "\<forall>p\<in>set pats. \<forall>v. snd (regexp_test env p v) = p"
    and "lastmod cfg' = lastmod cfg" "fieldSelection cfg' = fieldSelection cfg"
    and "date_getTime env' = date_getTime env" "regexp_test env' = regexp_test env"
  shows "leaf_projection cfg' env' u elems (snd (leaf_projection cfg env u elems pats))
           = leaf_projection cfg env u elems pats"
proof -
  have "snd (leaf_projection cfg env u elems pats) = pats"
    using leaf_projection_stateless[OF assms(1)] .
  moreover have "leaf_projection cfg' env' u elems pats = leaf_projection cfg env u elems pats"
    by (rule leaf_projection_cong[OF assms(2-5)])
  ultimately show ?thesis by simp
qed

text \<open>
  Two runs with the pattern \<open>/foo/\<close>, the second with other retry and debug
  settings.
\<close>

theorem leaf_projection_twice_witness:
  "leaf_projection (mock_cfg\<lparr>retries := 3, debug := True\<rparr>) mock_env (Str ''s'')
      [page ''a/foo'', page ''b'']
      (snd (leaf_projection mock_cfg mock_env (Str ''s'') [page ''a/foo'', page ''b'']
              [RegExp ''foo'' False 0]))
   = leaf_projection mock_cfg mock_env (Str ''s'') [page ''a/foo'', page ''b''] [RegExp ''foo'' False 0]"
proof -
  have h: "\<forall>p\<in>set [RegExp ''foo'' False 0]. \<forall>v. snd (regexp_test mock_env p v) = p"
    by (simp add: mock_env_def literal_test_def Let_def split: option.splits)
  have c: "lastmod (mock_cfg\<lparr>retries := 3, debug := True\<rparr>) = lastmod mock_cfg"
          "fieldSelection (mock_cfg\<lparr>retries := 3, debug := True\<rparr>) = fieldSelection mock_cfg"
    by simp_all
  from leaf_projection_twice[OF h c refl refl] show ?thesis .
qed

text \<open>
  C9. With the exclusion pattern \<open>/foo/g\<close> the leaf projection of the single
  element \<open>{loc: 'a/foo'}\<close> is empty on the first run, which leaves
  \<open>lastIndex = 5\<close> in the pattern, and is \<open>['a/foo']\<close> on the second run on the
  same element, which starts from that pattern: \<open>isExcluded\<close> calls \<open>test\<close> and
  never resets the pattern, so that a URL that matches an exclusion pattern is kept.
\<close>

theorem leaf_projection_global_pattern:
  "leaf_projection mock_cfg mock_env (Str ''s'') [page ''a/foo''] [RegExp ''foo'' True 0]
     = (Inr [], [RegExp ''foo'' True 5])
   \<and> leaf_projection mock_cfg mock_env (Str ''s'') [page ''a/foo''] [RegExp ''foo'' True 5]
     = (Inr [Str ''a/foo''], [RegExp ''foo'' True 0])"
  by (simp add: model_defs fixture_defs)

section \<open>A urlset with a single url object\<close>

lemma site_entry_defined: "\<not> nullish site \<Longrightarrow> \<exists>entry. site_entry cfg u site = Inr entry"
proof (cases "fieldSelection cfg")
  case None
  assume "\<not> nullish site"
  then show ?thesis using None js_prop_defined[of site "''loc''"] by (simp add: site_entry_def)
next
  case (Some fs)
  assume "\<not> nullish site"
  from copy_fields_map_of[OF this, of fs
         "if map_of fs ''sitemap'' = Some True then [(''sitemap'', u)] else []"]
  obtain kvs where
    "copy_fields fs site (if map_of fs ''sitemap'' = Some True then [(''sitemap'', u)] else [])
       = Inr kvs"
    by blast
  then show ?thesis
    using Some by (simp add: site_entry_def)
qed

lemma leaf_projection_single_no_filters:
  assumes "lastmod cfg = 0" "\<not> nullish site"
  shows "\<exists>entry. leaf_projection cfg env u [site] [] = (Inr [entry], [])"
proof -
  from site_entry_defined[OF assms(2)] obtain entry where "site_entry cfg u site = Inr entry"
    by blast
  moreover have "exclusion_filter env [] [site] = (Inr [site], [])"
    by (rule exclusion_filter_no_patterns) (simp add: assms(2))
  ultimately show ?thesis
    using assms(1)
    by (simp add: leaf_projection_def lastmod_filter_off
             del: lastmod_filter.simps exclusion_filter.simps)
qed

text \<open>
  C10. When \<open>parse\<close> returns, without error, a tree whose \<open>urlset.url\<close> is a truthy
  value that is not an array (a single element object), \<open>crawl\<close> takes the leaf
  branch and its result is the leaf projection of the one-element list of that value;
  with the lastmod floor off and no exclusion pattern, the result is exactly one site
  entry and no error.
\<close>

theorem crawl_single_url_object:
  assumes p: "parse cfg env u sg st = (Resolved (ParseData err dat), st1)"
    and e: "\<not> truthy err"
    and d: "truthy dat" "truthy (truthy_prop dat ''urlset'')"
    and s: "truthy_prop (truthy_prop dat ''urlset'') ''url'' = site" "truthy site" "\<not> isArray site"
  shows "crawl (Suc n) cfg env u ri sg st =
           (case leaf_projection cfg env u [site] (exclusions st1) of
              (Inl e, pats) \<Rightarrow> Some (crawl_catch e, st1\<lparr>exclusions := pats\<rparr>)
            | (Inr entries, pats) \<Rightarrow>
                Some (Resolved (CrawlResult \<lparr>sites = entries, errors = []\<rparr>),
                      st1\<lparr>exclusions := pats\<rparr>))
         \<and> (lastmod cfg = 0 \<and> exclusions st1 = [] \<longrightarrow>
              (\<exists>entry. crawl (Suc n) cfg env u ri sg st =
                 Some (Resolved (CrawlResult \<lparr>sites = [entry], errors = []\<rparr>), st1)))"
proof -
  have u: "is_urlset dat" using d s by (simp add: is_urlset_def)
  have arr: "(case site of Arr xs \<Rightarrow> xs | other \<Rightarrow> [site]) = [site]"
    using s(3) by (cases site) simp_all
  have 1: "crawl (Suc n) cfg env u ri sg st =
           (case leaf_projection cfg env u [site] (exclusions st1) of
              (Inl e, pats) \<Rightarrow> Some (crawl_catch e, st1\<lparr>exclusions := pats\<rparr>)
            | (Inr entries, pats) \<Rightarrow>
                Some (Resolved (CrawlResult \<lparr>sites = entries, errors = []\<rparr>),
                      st1\<lparr>exclusions := pats\<rparr>))"
    by (simp add: p e u s(1) arr Let_def)
  have 2: "\<exists>entry. crawl (Suc n) cfg env u ri sg st =
                 Some (Resolved (CrawlResult \<lparr>sites = [entry], errors = []\<rparr>), st1)"
    if "lastmod cfg = 0" "exclusions st1 = []"
  proof -
    from leaf_projection_single_no_filters[OF that(1) truthy_not_nullish[OF s(2)]]
    obtain entry where "leaf_projection cfg env u [site] [] = (Inr [entry], [])" by blast
    moreover have "st1\<lparr>exclusions := []\<rparr> = st1" using that(2) by simp
    ultimately show ?thesis using 1 that(2) by simp
  qed
  from 1 2 show ?thesis by blast
qed

theorem crawl_single_url_object_witness:
  "\<exists>entry. crawl (Suc 0) mock_cfg mock_env (Str ''one.xml'') 0 None st0 =
      Some (Resolved (CrawlResult \<lparr>sites = [entry], errors = []\<rparr>),
            \<lparr>requests = [Str ''one.xml''], exclusions = []\<rparr>)"
proof -
  let ?dat = "Obj [(''urlset'', Obj [(''url'', page ''page1'')])]"
  have p: "parse mock_cfg mock_env (Str ''one.xml'') None st0 =
             (Resolved (ParseData Null ?dat), \<lparr>requests = [Str ''one.xml''], exclusions = []\<rparr>)"
    by (simp add: model_defs mock_env_def mock_cfg_def st0_def)
  have s: "truthy_prop (truthy_prop ?dat ''urlset'') ''url'' = page ''page1''"
    by (simp add: truthy_prop_def)
  have t: "truthy (page ''page1'')" "\<not> isArray (page ''page1'')"
    by (simp_all add: page_def)
  have d: "truthy ?dat" "truthy (truthy_prop ?dat ''urlset'')"
    by (simp_all add: truthy_prop_def)
  have e: "\<not> truthy Null" by simp
  have c: "lastmod mock_cfg = 0
             \<and> exclusions \<lparr>requests = [Str ''one.xml''], exclusions = ([] :: regexp list)\<rparr> = []"
    by (simp add: mock_cfg_def)
  from conjunct2[OF crawl_single_url_object[OF p e d s t, of 0 0]] c
  show ?thesis by blast
qed

section \<open>The shape of a node's result and the aggregation\<close>










section \<open>A sitemapindex element without sitemap children\<close>

text \<open>
  C6. The document of \<open>odd.xml\<close> deserializes to a tree with a \<open>sitemapindex\<close> that has
  no \<open>sitemap\<close>: it has neither \<open>urlset.url\<close> nor \<open>sitemapindex.sitemap\<close>. With two
  retries configured, \<open>crawl\<close> does not retry and reports no error record: it takes
  the index branch, the call of \<open>map\<close> throws, the \<open>catch\<close> block drops the error and
  the promise resolves to \<open>undefined\<close> after a single request.
\<close>

theorem crawl_sitemapindex_without_sitemap:
  "fst (parse (mock_cfg\<lparr>retries := 2\<rparr>) mock_env (Str ''odd.xml'') None st0) =
     Resolved (ParseData Null (Obj [(''sitemapindex'', Obj [(''foo'', Str ''bar'')])]))
   \<and> crawl 3 (mock_cfg\<lparr>retries := 2\<rparr>) mock_env (Str ''odd.xml'') 0 None st0 =
     Some (Resolved ReturnsUndefined, \<lparr>requests = [Str ''odd.xml''], exclusions = []\<rparr>)"
  by (simp add: model_defs fixture_defs numeral_3_eq_3)

text \<open>
  C3. On the same document \<open>fetch\<close> rejects, and the error is not an abort error: the
  \<open>return\<close> statement reads \<open>sites\<close> of the \<open>undefined\<close> that \<open>crawl\<close> resolved to.
\<close>

theorem fetch_rejects_with_TypeError:
  "fetch 3 mock_cfg mock_env (Str ''odd.xml'') None st0 =
     Some (Threw TypeError, \<lparr>requests = [Str ''odd.xml''], exclusions = []\<rparr>)
   \<and> \<not> is_abort TypeError"
  by (simp add: model_defs fixture_defs numeral_3_eq_3)

section \<open>Cancellation\<close>

lemma crawl_Threw_is_abort:
  "crawl fuel cfg env u ri sg st = Some (Threw e, st') \<Longrightarrow> is_abort e"
proof (induction fuel arbitrary: ri st)
  case 0
  then show ?case by simp
next
  case (Suc n)
  then show ?case
    by (auto simp: crawl_catch_def Let_def
             split: if_splits sum.splits option.splits prod.splits completion.splits parse_data.splits)
qed

text \<open>
  X1. \<open>crawl\<close> rejects with abort errors only: whatever else is thrown inside it is
  dropped by its \<open>catch\<close> block.
\<close>

theorem crawl_rejects_only_with_abort:
  "crawl fuel cfg env u ri sg st = Some (Threw e, st') \<Longrightarrow> is_abort e"
  by (rule crawl_Threw_is_abort)

theorem crawl_rejects_only_with_abort_witness:
  "is_abort (Exn ''Error'' ''Request was aborted'')"
proof -
  have c: "crawl 3 (mock_cfg\<lparr>retries := 2\<rparr>) mock_env (Str ''bad.xml'') 0 (Some (\<lambda>t. 1 \<le> t)) st0
             = Some (Threw (Exn ''Error'' ''Request was aborted''),
                     \<lparr>requests = [Str ''bad.xml''], exclusions = []\<rparr>)"
    by (simp add: model_defs fixture_defs numeral_3_eq_3)
  from crawl_rejects_only_with_abort[OF c] show ?thesis .
qed

text \<open>
  X2. When \<open>parse\<close> throws (it throws abort errors only), \<open>crawl\<close> rejects with the
  same error in the state \<open>parse\<close> left, whatever the retry index and the retry limit:
  the error is not retried and no error record is made of it.
\<close>

theorem crawl_rethrows_abort:
  assumes "parse cfg env u sg st = (Threw e, st1)"
  shows "crawl (Suc n) cfg env u ri sg st = Some (Threw e, st1) \<and> is_abort e"
  using assms parse_Threw_is_abort[OF assms] by (simp add: crawl_catch_def)

theorem crawl_rethrows_abort_witness:
  "crawl (Suc 0) (mock_cfg\<lparr>retries := 2\<rparr>) mock_env (Str ''good.xml'') 0 (Some (\<lambda>t. True)) st0
     = Some (Threw (Exn ''Error'' ''Request was aborted''), st0)
   \<and> is_abort (Exn ''Error'' ''Request was aborted'')"
proof -
  have p: "parse (mock_cfg\<lparr>retries := 2\<rparr>) mock_env (Str ''good.xml'') (Some (\<lambda>t. True)) st0
             = (Threw (Exn ''Error'' ''Request was aborted''), st0)"
    by (simp add: parse_def aborted_def)
  from crawl_rethrows_abort[OF p] show ?thesis .
qed

lemma promise_all_Threw:
  "promise_all f urls st = Some (Threw e, st') \<Longrightarrow> \<exists>c\<in>set urls. \<exists>s. f c s = Some (Threw e, st')"
proof (induction urls arbitrary: st)
  case Nil
  then show ?case by simp
next
  case (Cons c cs)
  then show ?case
    by (auto split: option.splits prod.splits completion.splits)
qed

text \<open>
  X3. When a child of an index node rejects, the index node rejects with the same
  error, which is an abort error: the error unwinds the frame of the parent.
\<close>

theorem crawl_child_abort_unwinds:
  assumes p: "parse cfg env u sg st = (Resolved (ParseData err dat), st1)"
    and e: "\<not> truthy err" "\<not> is_urlset dat" "is_sitemapindex dat"
    and ch: "child_urls env (truthy_prop dat ''sitemapindex'') (exclusions st1) = (Inr sitemap, pats)"
    and t: "promise_all (\<lambda>site s. crawl n cfg env site 0 sg s) sitemap (st1\<lparr>exclusions := pats\<rparr>)
              = Some (Threw x, st2)"
  shows "crawl (Suc n) cfg env u ri sg st = Some (Threw x, st2) \<and> is_abort x"
proof -
  from promise_all_Threw[OF t] obtain c s where "crawl n cfg env c 0 sg s = Some (Threw x, st2)"
    by blast
  from crawl_Threw_is_abort[OF this] have "is_abort x" .
  then show ?thesis using p e ch t by (simp add: crawl_catch_def)
qed

theorem crawl_child_abort_unwinds_witness:
  "crawl (Suc (Suc 0)) mock_cfg mock_env (Str ''root.xml'') 0 (Some (\<lambda>t. 2 \<le> t)) st0
     = Some (Threw (Exn ''Error'' ''Request was aborted''),
             \<lparr>requests = [Str ''root.xml'', Str ''good.xml''], exclusions = []\<rparr>)
   \<and> is_abort (Exn ''Error'' ''Request was aborted'')"
proof -
  let ?idx = "Obj [(''sitemapindex'', Obj [(''sitemap'', Arr [page ''good.xml'', page ''bad.xml''])])]"
  let ?st1 = "\<lparr>requests = [Str ''root.xml''], exclusions = ([] :: regexp list)\<rparr>"
  let ?sg = "Some (\<lambda>t::nat. 2 \<le> t)"
  have p: "parse mock_cfg mock_env (Str ''root.xml'') ?sg st0 = (Resolved (ParseData Null ?idx), ?st1)"
    by (simp add: model_defs mock_env_def mock_cfg_def st0_def)
  have shape: "\<not> truthy Null" "\<not> is_urlset ?idx" "is_sitemapindex ?idx"
    by (simp_all add: is_urlset_def is_sitemapindex_def truthy_prop_def)
  have ch: "child_urls mock_env (truthy_prop ?idx ''sitemapindex'') (exclusions ?st1)
              = (Inr [Str ''good.xml'', Str ''bad.xml''], [])"
    by (simp add: child_urls_def truthy_prop_def page_def isExcluded_def)
  have t: "promise_all (\<lambda>site s. crawl (Suc 0) mock_cfg mock_env site 0 ?sg s)
             [Str ''good.xml'', Str ''bad.xml''] (?st1\<lparr>exclusions := []\<rparr>)
           = Some (Threw (Exn ''Error'' ''Request was aborted''),
                   \<lparr>requests = [Str ''root.xml'', Str ''good.xml''], exclusions = []\<rparr>)"
    by (simp add: model_defs fixture_defs)
  from crawl_child_abort_unwinds[OF p shape ch t] show ?thesis .
qed

text \<open>
  X4. \<open>fetch\<close> rejects either with an abort error, or with the TypeError of reading
  \<open>sites\<close> of \<open>undefined\<close> when \<open>crawl\<close> resolved to \<open>undefined\<close>.
\<close>

theorem fetch_rejections:
  assumes "fetch fuel cfg env u opt_signal st = Some (Threw e, st')"
  shows "is_abort e \<or>
         (e = TypeError \<and>
          crawl fuel cfg env (request_url cfg u) 0 (effective_signal cfg opt_signal) st
            = Some (Resolved ReturnsUndefined, st'))"
  using assms
  by (auto simp: fetch_def Let_def is_abort_def
           split: if_splits option.splits prod.splits completion.splits crawl_value.splits)

theorem fetch_rejections_witness:
  "is_abort TypeError \<or>
   (TypeError = TypeError \<and>
    crawl 3 mock_cfg mock_env (request_url mock_cfg (Str ''odd.xml'')) 0 (effective_signal mock_cfg None) st0
      = Some (Resolved ReturnsUndefined, \<lparr>requests = [Str ''odd.xml''], exclusions = []\<rparr>))"
proof -
  have f: "fetch 3 mock_cfg mock_env (Str ''odd.xml'') None st0 =
     Some (Threw TypeError, \<lparr>requests = [Str ''odd.xml''], exclusions = []\<rparr>)"
    by (simp add: model_defs fixture_defs numeral_3_eq_3)
  from fetch_rejections[OF f] show ?thesis .
qed

section \<open>Documents of neither shape, and the index branch\<close>

lemma crawl_unknown_loop:
  assumes fails: "\<And>s. n \<le> length (requests s) \<Longrightarrow> length (requests s) \<le> n + retries cfg \<Longrightarrow>
              \<exists>err dat. fst (parse cfg env u sg s) = Resolved (ParseData err dat) \<and> \<not> truthy err
                 \<and> \<not> is_urlset dat \<and> \<not> is_sitemapindex dat \<and> \<not> nullish dat"
  shows "d = retries cfg - ri \<Longrightarrow> ri \<le> retries cfg \<Longrightarrow> length (requests st) = n + ri \<Longrightarrow>
         d < fuel \<Longrightarrow>
         \<exists>nm. crawl fuel cfg env u ri sg st =
            Some (Resolved (CrawlResult
                    \<lparr>sites = [],
                       errors = [ErrorData nm (Str ''An unknown error occurred.'') u (retries cfg)]\<rparr>),
                  st\<lparr>requests := requests st @ replicate (Suc d) (request_url cfg u)\<rparr>)"
proof (induction d arbitrary: ri st fuel)
  case 0
  then obtain m where fuel: "fuel = Suc m" by (cases fuel) auto
  from 0 have ri: "ri = retries cfg" by simp
  from fails[of st] 0 obtain err dat where
    p: "fst (parse cfg env u sg st) = Resolved (ParseData err dat)" and
    t: "\<not> truthy err" "\<not> is_urlset dat" "\<not> is_sitemapindex dat" "\<not> nullish dat"
    by auto
  obtain st1 where p1: "parse cfg env u sg st = (Resolved (ParseData err dat), st1)"
    using p by (cases "parse cfg env u sg st") auto
  have st1: "st1 = st\<lparr>requests := requests st @ [request_url cfg u]\<rparr>"
    using parse_Resolved_state[OF p1] .
  from t(4) obtain nm where nm: "js_prop dat ''name'' = Inr nm"
    using js_prop_defined by blast
  show ?case
    by (simp add: fuel p1 t ri nm st1)
next
  case (Suc d)
  then obtain m where fuel: "fuel = Suc m" and m: "d < m" by (cases fuel) auto
  from Suc.prems have ri: "ri < retries cfg" by simp
  from fails[of st] Suc.prems obtain err dat where
    p: "fst (parse cfg env u sg st) = Resolved (ParseData err dat)" and
    t: "\<not> truthy err" "\<not> is_urlset dat" "\<not> is_sitemapindex dat" "\<not> nullish dat"
    by auto
  obtain st1 where p1: "parse cfg env u sg st = (Resolved (ParseData err dat), st1)"
    using p by (cases "parse cfg env u sg st") auto
  have st1: "st1 = st\<lparr>requests := requests st @ [request_url cfg u]\<rparr>"
    using parse_Resolved_state[OF p1] .
  from t(4) obtain nm where nm: "js_prop dat ''name'' = Inr nm"
    using js_prop_defined by blast
  have lg: "log_retry cfg dat = None" by (simp add: log_retry_def nm)
  have "\<exists>nm. crawl m cfg env u (Suc ri) sg st1 =
            Some (Resolved (CrawlResult
                    \<lparr>sites = [],
                       errors = [ErrorData nm (Str ''An unknown error occurred.'') u (retries cfg)]\<rparr>),
                  st1\<lparr>requests := requests st1 @ replicate (Suc d) (request_url cfg u)\<rparr>)"
    using Suc.prems ri m by (intro Suc.IH) (auto simp: st1)
  then show ?case
    by (simp add: fuel p1 t ri lg st1 replicate_app_Cons_same)
qed

text \<open>
  X5. Take a node whose \<open>parse\<close> returns on every attempt, without error, a value
  that is neither \<open>undefined\<close> nor \<open>null\<close> and passes neither shape test (no truthy
  \<open>urlset.url\<close>, no truthy \<open>sitemapindex\<close>). Given a recursion bound above
  \<open>retries\<close>, \<open>crawl\<close> retries \<open>retries\<close> times and resolves with no sites and one
  error record with the message \<open>An unknown error occurred.\<close> and the \<open>retries\<close>
  field \<open>retries\<close>, after \<open>retries + 1\<close> requests.
\<close>

theorem crawl_unknown_state:
  assumes "\<And>s. length (requests st) \<le> length (requests s) \<Longrightarrow>
                length (requests s) \<le> length (requests st) + retries cfg \<Longrightarrow>
              \<exists>err dat. fst (parse cfg env u sg s) = Resolved (ParseData err dat) \<and> \<not> truthy err
                 \<and> \<not> is_urlset dat \<and> \<not> is_sitemapindex dat \<and> \<not> nullish dat"
    and "retries cfg < fuel"
  shows "\<exists>nm. crawl fuel cfg env u 0 sg st =
            Some (Resolved (CrawlResult
                    \<lparr>sites = [],
                       errors = [ErrorData nm (Str ''An unknown error occurred.'') u (retries cfg)]\<rparr>),
                  st\<lparr>requests := requests st @ replicate (retries cfg + 1) (request_url cfg u)\<rparr>)"
  using crawl_unknown_loop[where n = "length (requests st)" and ri = 0 and st = st and fuel = fuel
          and cfg = cfg and env = env and u = u and sg = sg and d = "retries cfg"] assms
  by simp

theorem crawl_unknown_state_witness:
  "\<exists>nm. crawl 3 (mock_cfg\<lparr>retries := 2\<rparr>) mock_env (Str ''other.xml'') 0 None st0 =
      Some (Resolved (CrawlResult
              \<lparr>sites = [],
                 errors = [ErrorData nm (Str ''An unknown error occurred.'') (Str ''other.xml'') 2]\<rparr>),
            \<lparr>requests = [Str ''other.xml'', Str ''other.xml'', Str ''other.xml''], exclusions = []\<rparr>)"
proof -
  have h: "\<exists>err dat. fst (parse (mock_cfg\<lparr>retries := 2\<rparr>) mock_env (Str ''other.xml'') None s)
                       = Resolved (ParseData err dat) \<and> \<not> truthy err
                 \<and> \<not> is_urlset dat \<and> \<not> is_sitemapindex dat \<and> \<not> nullish dat" for s :: "regexp state"
    by (simp add: model_defs fixture_defs)
  have f: "retries (mock_cfg\<lparr>retries := 2\<rparr>) < 3"
    by (simp add: mock_cfg_def)
  from crawl_unknown_state[where st = st0, OF h f] show ?thesis
    by (simp add: request_url_def st0_def mock_cfg_def numeral_3_eq_3)
qed

text \<open>
  X6. When \<open>parse\<close> returns, without error, a tree that is not a urlset and whose
  \<open>sitemapindex.sitemap\<close> is an array of elements, \<open>crawl\<close> crawls the \<open>loc\<close> of
  each element that is not excluded, in order, with retry index \<open>0\<close>, and resolves
  with the aggregate of the children's results.
\<close>

theorem crawl_index_branch:
  assumes p: "parse cfg env u sg st = (Resolved (ParseData err dat), st1)"
    and e: "\<not> truthy err" "\<not> is_urlset dat"
    and a: "truthy dat" "truthy (truthy_prop dat ''sitemapindex'')"
           "truthy_prop (truthy_prop dat ''sitemapindex'') ''sitemap'' = Arr maps"
           "\<forall>m\<in>set maps. \<not> nullish m"
  shows "\<exists>sitemap pats.
           filter_excluded env (exclusions st1) (map (\<lambda>m. truthy_prop m ''loc'') maps) = (sitemap, pats)
         \<and> crawl (Suc n) cfg env u ri sg st =
             (case promise_all (\<lambda>site s. crawl n cfg env site 0 sg s) sitemap
                     (st1\<lparr>exclusions := pats\<rparr>) of
                None \<Rightarrow> None
              | Some (Threw x, st2) \<Rightarrow> Some (crawl_catch x, st2)
              | Some (Resolved results, st2) \<Rightarrow>
                  (case aggregate results of
                     Inl x \<Rightarrow> Some (crawl_catch x, st2)
                   | Inr r \<Rightarrow> Some (Resolved (CrawlResult r), st2)))"
proof -
  have ml: "map_loc maps = Inr (map (\<lambda>m. truthy_prop m ''loc'') maps)"
    using a(4) by (induction maps) (simp_all add: js_prop_truthy_prop)
  obtain sitemap pats where
    f: "filter_excluded env (exclusions st1) (map (\<lambda>m. truthy_prop m ''loc'') maps) = (sitemap, pats)"
    by (cases "filter_excluded env (exclusions st1) (map (\<lambda>m. truthy_prop m ''loc'') maps)")
  have ch: "child_urls env (truthy_prop dat ''sitemapindex'') (exclusions st1) = (Inr sitemap, pats)"
    by (simp add: child_urls_def a(3) ml f)
  have "is_sitemapindex dat" using a by (simp add: is_sitemapindex_def)
  then show ?thesis using p e ch f by simp
qed

theorem crawl_index_branch_witness:
  "\<exists>sitemap pats.
      filter_excluded mock_env (exclusions \<lparr>requests = [Str ''root.xml''], exclusions = []\<rparr>)
        (map (\<lambda>m. truthy_prop m ''loc'') [page ''good.xml'', page ''bad.xml'']) = (sitemap, pats)
    \<and> crawl (Suc (Suc 0)) mock_cfg mock_env (Str ''root.xml'') 0 None st0 =
        (case promise_all (\<lambda>site s. crawl (Suc 0) mock_cfg mock_env site 0 None s) sitemap
                (\<lparr>requests = [Str ''root.xml''], exclusions = []\<rparr>\<lparr>exclusions := pats\<rparr>) of
           None \<Rightarrow> None
         | Some (Threw x, st2) \<Rightarrow> Some (crawl_catch x, st2)
         | Some (Resolved results, st2) \<Rightarrow>
             (case aggregate results of
                Inl x \<Rightarrow> Some (crawl_catch x, st2)
              | Inr r \<Rightarrow> Some (Resolved (CrawlResult r), st2)))"
proof -
  let ?idx = "Obj [(''sitemapindex'', Obj [(''sitemap'', Arr [page ''good.xml'', page ''bad.xml''])])]"
  let ?st1 = "\<lparr>requests = [Str ''root.xml''], exclusions = ([] :: regexp list)\<rparr>"
  have p: "parse mock_cfg mock_env (Str ''root.xml'') None st0 = (Resolved (ParseData Null ?idx), ?st1)"
    by (simp add: model_defs mock_env_def mock_cfg_def st0_def)
  have shape: "\<not> truthy Null" "\<not> is_urlset ?idx"
    by (simp_all add: is_urlset_def truthy_prop_def)
  have a: "truthy ?idx" "truthy (truthy_prop ?idx ''sitemapindex'')"
          "truthy_prop (truthy_prop ?idx ''sitemapindex'') ''sitemap'' = Arr [page ''good.xml'', page ''bad.xml'']"
          "\<forall>m\<in>set [page ''good.xml'', page ''bad.xml'']. \<not> nullish m"
    by (simp_all add: truthy_prop_def page_def)
  from crawl_index_branch[OF p shape a, of "Suc 0" 0] show ?thesis .
qed

end
